theory Spec2Isabelle
  imports Complex_Main "HOL-Library.Word" "HOL-Library.Signed_Division"
begin

section \<open>Linear moves of stepper motors: \<^verbatim>\<open>stepper_math_linear.cpp\<close>\<close>

text \<open>
  The file computes, for a straight move along one or two axes, the signed number of motor
  steps of each axis and the delay between two steps, and hands them to \<^verbatim>\<open>prepare_steps\<close>
  of the stepper library.

  The target is a 32-bit microcontroller: \<^verbatim>\<open>long\<close> and \<^verbatim>\<open>unsigned long\<close> are 32 bits wide
  (the comment above the speed formula says so: ``32-bit unsigned long = 2^32''). Both are
  \<open>32 word\<close> here; \<open>sint\<close> reads a \<^verbatim>\<open>long\<close>, \<open>uint\<close>/\<open>unat\<close> an \<^verbatim>\<open>unsigned long\<close>.
  Unsigned arithmetic wraps modulo \<open>2^32\<close>; signed negation and subtraction wrap in two's
  complement, as the hardware does. The debug output to the serial port does not take part
  in any computed value and is left out.
\<close>

subsection \<open>Machine integers\<close>

type_synonym long = "32 word"
type_synonym ulong = "32 word"

text \<open>Division of two \<^verbatim>\<open>long\<close> values: C++ truncates towards zero.\<close>

definition long_div :: "long \<Rightarrow> long \<Rightarrow> long" where
  "long_div a b = word_of_int (sint a sdiv sint b)"

text \<open>The conditional \<^verbatim>\<open>x >= 0 ? x : -x\<close> on a \<^verbatim>\<open>long\<close>.\<close>

definition long_abs :: "long \<Rightarrow> long" where
  "long_abs x = (if 0 \<le> sint x then x else - x)"

subsection \<open>The axis\<close>

text \<open>
  Modelled from the spec: the declaration of \<^verbatim>\<open>struct stepper\<close> lives in \<^verbatim>\<open>stepper.h\<close>, which is
  not among the sources. The spec gives the three fields the planner reads as integers:
  \<^verbatim>\<open>distance_per_step\<close> and \<^verbatim>\<open>pulse_delay\<close> positive, \<^verbatim>\<open>current_pos\<close> signed; the speed
  formula is computed in unsigned 32-bit arithmetic and the step count by a signed
  division. The fields are 32-bit words, read as the operation at hand reads them.
\<close>

record stepper =
  name :: char
  distance_per_step :: "32 word"
  pulse_delay :: "32 word"
  current_pos :: "32 word"

subsection \<open>Outcomes\<close>

text \<open>
  A call returns an \<^verbatim>\<open>int\<close> and may have called \<^verbatim>\<open>prepare_steps(sm, steps, step_delay)\<close>;
  the calls are listed in the order they are made. Two operations of the source have no
  defined result in C++ and are faults of the model: an integer division by zero, and the
  conversion to \<^verbatim>\<open>long\<close> of a \<^verbatim>\<open>double\<close> that \<^verbatim>\<open>long\<close> cannot hold (infinite, not a number or out
  of range).
\<close>

datatype fault = DivByZero | FloatToLong

type_synonym steps_call = "stepper \<times> long \<times> ulong"

type_synonym outcome = "fault + int \<times> steps_call list"

text \<open>The documentation comment of every entry point gives the value of the error code.\<close>

definition STEPPER_MATH_ERR_TOO_FAST :: int where
  "STEPPER_MATH_ERR_TOO_FAST = 1"

subsection \<open>Double precision arithmetic\<close>

text \<open>
  \<^verbatim>\<open>double\<close> is IEEE 754 binary64 with rounding to nearest, ties to even. A finite
  \<^verbatim>\<open>double\<close> is represented by the rational number it denotes. Every operation of the source
  is the exact operation followed by rounding to 53 significant bits. The operands are
  32-bit integers and the constant \<open>1000000\<close>, so every non-zero intermediate value has a
  magnitude between \<open>2^-32\<close> and \<open>2^63\<close>: the exponent never leaves the normal range and the
  rounding below needs no bound on it. The only non-finite value arises from the division
  by a zero speed; it ends in the conversion to \<^verbatim>\<open>long\<close>, which is then undefined.
\<close>

fun bitlen :: "int \<Rightarrow> int" where
  "bitlen n = (if n \<le> 0 then 0 else 1 + bitlen (n div 2))"

declare bitlen.simps [simp del]

definition pow2 :: "int \<Rightarrow> rat" where
  "pow2 e = (if 0 \<le> e then 2 ^ nat e else 1 / 2 ^ nat (- e))"

text \<open>\<open>ilog2 x\<close> is the exponent \<open>e\<close> with \<open>2^e \<le> x < 2^(e+1)\<close>, for \<open>x > 0\<close>.\<close>

definition ilog2 :: "rat \<Rightarrow> int" where
  "ilog2 x =
     (let (a, b) = quotient_of x;
          e = bitlen a - bitlen b
      in if pow2 e \<le> x then e else e - 1)"

definition round_even :: "rat \<Rightarrow> int" where
  "round_even x =
     (let m = \<lfloor>x\<rfloor>; f = x - of_int m
      in if f < 1 / 2 then m
         else if 1 / 2 < f then m + 1
         else if even m then m else m + 1)"

definition fl :: "rat \<Rightarrow> rat" where
  "fl x =
     (if x = 0 then 0
      else let s = pow2 (52 - ilog2 \<bar>x\<bar>)
           in of_int (round_even (x * s)) / s)"

text \<open>The integer square root, by bisection between \<open>l\<close> and \<open>h\<close>.\<close>

function isqrt_between :: "int \<Rightarrow> int \<Rightarrow> int \<Rightarrow> int" where
  "isqrt_between l h n =
     (if h \<le> l + 1 then l
      else let m = (l + h) div 2
           in if m * m \<le> n then isqrt_between m h n else isqrt_between l m n)"
  by pat_completeness auto
termination
  by (relation "measure (\<lambda>(l, h, n). nat (h - l))") auto

declare isqrt_between.simps [simp del]

definition isqrt :: "int \<Rightarrow> int" where
  "isqrt n = isqrt_between 0 (n + 1) n"

text \<open>
  \<^verbatim>\<open>sqrt\<close> is correctly rounded: the argument is scaled by a power of four so that the root
  has 53 bits before the point, and the root is rounded to the nearer neighbour.
\<close>

definition fsqrt :: "rat \<Rightarrow> rat" where
  "fsqrt x =
     (if x \<le> 0 then 0
      else let k = 52 - ilog2 x div 2;
               y = x * pow2 (2 * k);
               r = isqrt \<lfloor>y\<rfloor>;
               mid = of_int (r * r + r) + 1 / 4;
               r' = (if y < mid then r else if mid < y then r + 1
                     else if even r then r else r + 1)
           in of_int r' / pow2 k)"

text \<open>Conversions: a 32-bit integer is a \<^verbatim>\<open>double\<close> exactly; a \<^verbatim>\<open>double\<close> is cut towards zero.\<close>

definition double_of_long :: "long \<Rightarrow> rat" where
  "double_of_long x = of_int (sint x)"

definition double_of_ulong :: "ulong \<Rightarrow> rat" where
  "double_of_ulong x = of_int (uint x)"

definition long_of_double :: "rat \<Rightarrow> long option" where
  "long_of_double x =
     (let t = (if 0 \<le> x then \<lfloor>x\<rfloor> else - \<lfloor>- x\<rfloor>)
      in if - (2 ^ 31) \<le> t \<and> t < 2 ^ 31 then Some (word_of_int t) else None)"

subsection \<open>The pieces of the planner\<close>

text \<open>\<^verbatim>\<open>(sm->distance_per_step * 1000 / sm->pulse_delay) * 1000\<close>, in \<^verbatim>\<open>unsigned long\<close>.\<close>

definition max_spd :: "stepper \<Rightarrow> ulong" where
  "max_spd sm = (distance_per_step sm * 1000 div pulse_delay sm) * 1000"

text \<open>
  \<^verbatim>\<open>if(spd == 0) { spd = max_spd; } else if(spd > max_spd) { return ...TOO_FAST; }\<close>:
  \<open>None\<close> is the early return.
\<close>

definition resolve_spd :: "ulong \<Rightarrow> ulong \<Rightarrow> ulong option" where
  "resolve_spd spd m =
     (if spd = 0 then Some m
      else if spd > m then None
      else Some spd)"

text \<open>\<^verbatim>\<open>long dt = ((double)dl / (double)spd) * 1000000;\<close>\<close>

definition transit_time :: "long \<Rightarrow> ulong \<Rightarrow> long option" where
  "transit_time dl spd =
     (if spd = 0 then None
      else long_of_double (fl (fl (double_of_long dl / double_of_ulong spd) * 1000000)))"

text \<open>\<^verbatim>\<open>long dl = sqrt((double)dl1*(double)dl1 + (double)dl2*(double)dl2);\<close>\<close>

definition path_length :: "long \<Rightarrow> long \<Rightarrow> long option" where
  "path_length dl1 dl2 =
     long_of_double
       (fsqrt (fl (fl (double_of_long dl1 * double_of_long dl1)
                 + fl (double_of_long dl2 * double_of_long dl2))))"

subsection \<open>The four entry points\<close>

definition prepare_line :: "stepper \<Rightarrow> long \<Rightarrow> ulong \<Rightarrow> outcome" where
  "prepare_line sm dl spd =
     (if distance_per_step sm = 0 then Inl DivByZero
      else let steps = long_div dl (distance_per_step sm);
               mod_steps = long_abs steps
      in if pulse_delay sm = 0 then Inl DivByZero
      else case resolve_spd spd (max_spd sm) of
             None \<Rightarrow> Inr (STEPPER_MATH_ERR_TOO_FAST, [])
           | Some spd' \<Rightarrow>
               (case transit_time dl spd' of
                  None \<Rightarrow> Inl FloatToLong
                | Some dt \<Rightarrow>
                    if mod_steps = 0 then Inl DivByZero
                    else let step_delay = long_div dt mod_steps
                         in Inr (0, [(sm, steps, step_delay)])))"

definition prepare_line_abs :: "stepper \<Rightarrow> long \<Rightarrow> ulong \<Rightarrow> outcome" where
  "prepare_line_abs sm cvalue spd =
     (let dl = cvalue - current_pos sm
      in prepare_line sm dl spd)"

text \<open>\<^verbatim>\<open>max_spd_sm1 < max_spd_sm2 ? max_spd_sm1 : max_spd_sm2\<close>\<close>

definition max_spd_2d :: "stepper \<Rightarrow> stepper \<Rightarrow> ulong" where
  "max_spd_2d sm1 sm2 =
     (let max_spd_sm1 = max_spd sm1;
          max_spd_sm2 = max_spd sm2
      in if max_spd_sm1 < max_spd_sm2 then max_spd_sm1 else max_spd_sm2)"

definition prepare_line_2d :: "stepper \<Rightarrow> stepper \<Rightarrow> long \<Rightarrow> long \<Rightarrow> ulong \<Rightarrow> outcome" where
  "prepare_line_2d sm1 sm2 dl1 dl2 spd =
     (if distance_per_step sm1 = 0 \<or> distance_per_step sm2 = 0 then Inl DivByZero
      else let steps_sm1 = long_div dl1 (distance_per_step sm1);
               steps_sm2 = long_div dl2 (distance_per_step sm2);
               mod_steps_sm1 = long_abs steps_sm1;
               mod_steps_sm2 = long_abs steps_sm2
      in if pulse_delay sm1 = 0 \<or> pulse_delay sm2 = 0 then Inl DivByZero
      else case resolve_spd spd (max_spd_2d sm1 sm2) of
             None \<Rightarrow> Inr (STEPPER_MATH_ERR_TOO_FAST, [])
           | Some spd' \<Rightarrow>
               (case path_length dl1 dl2 of
                  None \<Rightarrow> Inl FloatToLong
                | Some dl \<Rightarrow>
                    (case transit_time dl spd' of
                       None \<Rightarrow> Inl FloatToLong
                     | Some dt \<Rightarrow>
                         if mod_steps_sm1 = 0 \<or> mod_steps_sm2 = 0 then Inl DivByZero
                         else let step_delay_sm1 = long_div dt mod_steps_sm1;
                                  step_delay_sm2 = long_div dt mod_steps_sm2
                              in Inr (0, [(sm1, steps_sm1, step_delay_sm1),
                                          (sm2, steps_sm2, step_delay_sm2)]))))"

definition prepare_line_2d_abs ::
  "stepper \<Rightarrow> stepper \<Rightarrow> long \<Rightarrow> long \<Rightarrow> ulong \<Rightarrow> outcome" where
  "prepare_line_2d_abs sm1 sm2 cvalue1 cvalue2 spd =
     (let dl1 = cvalue1 - current_pos sm1;
          dl2 = cvalue2 - current_pos sm2
      in prepare_line_2d sm1 sm2 dl1 dl2 spd)"

subsection \<open>Reference values\<close>

text \<open>
  The exact maximum speed that the spec compares the three-stage formula with:
  \<open>floor (distance_per_step * 1000000 / pulse_delay)\<close>, over the natural numbers.
\<close>

definition exact_max_spd :: "stepper \<Rightarrow> nat" where
  "exact_max_spd sm = unat (distance_per_step sm) * 1000000 div unat (pulse_delay sm)"

text \<open>An axis at position 0 with the given step length and minimal pulse delay.\<close>

definition axis :: "32 word \<Rightarrow> 32 word \<Rightarrow> stepper" where
  "axis d p = \<lparr>name = CHR ''x'', distance_per_step = d, pulse_delay = p, current_pos = 0\<rparr>"

section \<open>The maximum speed\<close>

lemma three_stage_bound:
  fixes d p :: nat
  assumes "0 < p"
  shows "d * 1000000 div p < d * 1000 div p * 1000 + 1000"
    and "d * 1000 div p * 1000 \<le> d * 1000000 div p"
proof -
  define q where "q = d * 1000 div p"
  have "d * 1000 < p + q * p"
    unfolding q_def using assms by (rule dividend_less_div_times)
  then have "d * 1000 * 1000 < (p + q * p) * 1000" by simp
  then have "d * 1000000 < (q * 1000 + 1000) * p" by (simp add: algebra_simps)
  then show "d * 1000000 div p < q * 1000 + 1000"
    using assms by (simp add: less_mult_imp_div_less)
  have "q * p \<le> d * 1000" unfolding q_def by simp
  then have "q * p * 1000 \<le> d * 1000 * 1000" by (rule mult_le_mono1)
  then have "q * 1000 * p \<le> d * 1000000" by (simp add: algebra_simps)
  then show "q * 1000 \<le> d * 1000000 div p"
    using assms by (simp add: less_eq_div_iff_mult_less_eq)
qed

lemma unat_max_spd:
  assumes "unat (distance_per_step sm) * 1000 < 2 ^ 32"
      and "unat (distance_per_step sm) * 1000 div unat (pulse_delay sm) * 1000 < 2 ^ 32"
  shows "unat (max_spd sm) = unat (distance_per_step sm) * 1000 div unat (pulse_delay sm) * 1000"
proof -
  have a: "unat (distance_per_step sm * 1000) = unat (distance_per_step sm) * 1000"
    using assms(1) by (simp add: unat_word_ariths)
  have b: "unat (distance_per_step sm * 1000 div pulse_delay sm)
             = unat (distance_per_step sm) * 1000 div unat (pulse_delay sm)"
    by (simp add: unat_div a)
  have "unat (distance_per_step sm * 1000 div pulse_delay sm) * unat (1000 :: 32 word)
          < 2 ^ LENGTH(32)"
    using assms(2) by (simp add: b)
  then have "unat (distance_per_step sm * 1000 div pulse_delay sm * 1000)
          = unat (distance_per_step sm * 1000 div pulse_delay sm) * unat (1000 :: 32 word)"
    by (simp only: unat_mult_lem)
  then show ?thesis by (simp add: max_spd_def b)
qed

text \<open>
  C1, as the code has it. For \<open>distance_per_step\<close> in \<open>[1, 100000]\<close> and \<open>pulse_delay\<close> in
  \<open>[1, 10000]\<close>, and provided the last product \<open>(distance_per_step * 1000 / pulse_delay) * 1000\<close>
  is below \<open>2^32\<close>: all three intermediate values are below \<open>2^32\<close>, the speed computed in
  32-bit arithmetic is the three-stage value over the natural numbers, and it lies within
  \<open>exact - 1000 < computed \<le> exact\<close> of \<open>floor (distance_per_step * 1000000 / pulse_delay)\<close>.
  For \<open>distance_per_step = 7500\<close> and \<open>pulse_delay = 1000\<close> the speed is \<open>7500000\<close>.
\<close>

theorem max_spd_three_stage:
  "(1 \<le> unat (distance_per_step sm) \<and> unat (distance_per_step sm) \<le> 100000 \<and>
    1 \<le> unat (pulse_delay sm) \<and> unat (pulse_delay sm) \<le> 10000 \<and>
    unat (distance_per_step sm) * 1000 div unat (pulse_delay sm) * 1000 < 2 ^ 32
    \<longrightarrow>
      unat (distance_per_step sm) * 1000 < 2 ^ 32 \<and>
      unat (distance_per_step sm) * 1000 div unat (pulse_delay sm) < 2 ^ 32 \<and>
      unat (max_spd sm) = unat (distance_per_step sm) * 1000 div unat (pulse_delay sm) * 1000 \<and>
      exact_max_spd sm < unat (max_spd sm) + 1000 \<and>
      unat (max_spd sm) \<le> exact_max_spd sm)
   \<and> max_spd (axis 7500 1000) = 7500000"
proof (intro conjI impI)
  assume h: "1 \<le> unat (distance_per_step sm) \<and> unat (distance_per_step sm) \<le> 100000 \<and>
    1 \<le> unat (pulse_delay sm) \<and> unat (pulse_delay sm) \<le> 10000 \<and>
    unat (distance_per_step sm) * 1000 div unat (pulse_delay sm) * 1000 < 2 ^ 32"
  then show small: "unat (distance_per_step sm) * 1000 < 2 ^ 32" by simp
  have "unat (distance_per_step sm) * 1000 div unat (pulse_delay sm)
          \<le> unat (distance_per_step sm) * 1000"
    by (rule div_le_dividend)
  then show "unat (distance_per_step sm) * 1000 div unat (pulse_delay sm) < 2 ^ 32"
    using small by (rule le_less_trans)
  from h have fits: "unat (distance_per_step sm) * 1000 div unat (pulse_delay sm) * 1000 < 2 ^ 32"
    by simp
  show val: "unat (max_spd sm)
               = unat (distance_per_step sm) * 1000 div unat (pulse_delay sm) * 1000"
    using small fits by (rule unat_max_spd)
  from h have pos: "0 < unat (pulse_delay sm)" by simp
  show "exact_max_spd sm < unat (max_spd sm) + 1000"
    unfolding exact_max_spd_def val using pos by (rule three_stage_bound(1))
  show "unat (max_spd sm) \<le> exact_max_spd sm"
    unfolding exact_max_spd_def val using pos by (rule three_stage_bound(2))
next
  show "max_spd (axis 7500 1000) = 7500000"
    by (simp add: max_spd_def axis_def)
qed

theorem max_spd_three_stage_witness:
  "unat (distance_per_step (axis 1234 7)) = 1234 \<and> unat (pulse_delay (axis 1234 7)) = 7 \<and>
   (1234 :: nat) * 1000 div 7 * 1000 < 2 ^ 32 \<and>
   unat (max_spd (axis 1234 7)) = 176285000 \<and>
   exact_max_spd (axis 1234 7) = 176285714"
  using max_spd_three_stage [of "axis 1234 7"]
  by (simp add: axis_def exact_max_spd_def)

text \<open>
  C1 as stated fails: the range \<open>[1, 100000] \<times> [1, 10000]\<close> does not keep the last product
  below \<open>2^32\<close>. With \<open>distance_per_step = 7500\<close> and \<open>pulse_delay = 1\<close> the product is
  \<open>7500000000\<close>; the 32-bit result is \<open>3205032704\<close>, more than \<open>1000\<close> below the exact value.
\<close>

theorem max_spd_overflow_counterexample:
  "unat (distance_per_step (axis 7500 1)) = 7500 \<and> unat (pulse_delay (axis 7500 1)) = 1 \<and>
   \<not> (unat (distance_per_step (axis 7500 1)) * 1000 div unat (pulse_delay (axis 7500 1)) * 1000
        < 2 ^ 32) \<and>
   max_spd (axis 7500 1) = 3205032704 \<and>
   exact_max_spd (axis 7500 1) = 7500000000 \<and>
   \<not> (exact_max_spd (axis 7500 1) < unat (max_spd (axis 7500 1)) + 1000)"
  by (simp add: axis_def exact_max_spd_def max_spd_def)

section \<open>Resolving the requested speed\<close>

lemma max_spd_2d_min: "max_spd_2d sm1 sm2 = min (max_spd sm1) (max_spd sm2)"
  by (auto simp: max_spd_2d_def Let_def min_def)

lemma resolve_spd_None_iff: "resolve_spd spd m = None \<longleftrightarrow> spd \<noteq> 0 \<and> m < spd"
  by (simp add: resolve_spd_def)

lemma prepare_line_too_fast_iff:
  assumes "distance_per_step sm \<noteq> 0" "pulse_delay sm \<noteq> 0"
  shows "prepare_line sm dl spd = Inr (STEPPER_MATH_ERR_TOO_FAST, [])
           \<longleftrightarrow> resolve_spd spd (max_spd sm) = None"
  using assms
  by (simp add: prepare_line_def Let_def STEPPER_MATH_ERR_TOO_FAST_def
      split: option.split)

lemma prepare_line_2d_too_fast_iff:
  assumes "distance_per_step sm1 \<noteq> 0" "pulse_delay sm1 \<noteq> 0"
      and "distance_per_step sm2 \<noteq> 0" "pulse_delay sm2 \<noteq> 0"
  shows "prepare_line_2d sm1 sm2 dl1 dl2 spd = Inr (STEPPER_MATH_ERR_TOO_FAST, [])
           \<longleftrightarrow> resolve_spd spd (max_spd_2d sm1 sm2) = None"
  using assms
  by (simp add: prepare_line_2d_def Let_def STEPPER_MATH_ERR_TOO_FAST_def
      split: option.split)

lemma max_spd_7500_1000: "max_spd (axis 7500 1000) = 7500000"
  by (simp add: max_spd_def axis_def)

lemma max_spd_1000_2000: "max_spd (axis 1000 2000) = 500000"
  by (simp add: max_spd_def axis_def)

lemma max_spd_1000_1000: "max_spd (axis 1000 1000) = 1000000"
  by (simp add: max_spd_def axis_def)

lemma axis_fields:
  "distance_per_step (axis d p) = d" "pulse_delay (axis d p) = p" "current_pos (axis d p) = 0"
  by (simp_all add: axis_def)

text \<open>
  C2. The axis data is well-formed (\<open>distance_per_step\<close> and \<open>pulse_delay\<close> not zero, the
  invariant of the data model), the requested speed is not zero and exceeds the applicable
  maximum: the maximum of the axis for \<^verbatim>\<open>prepare_line\<close> and \<^verbatim>\<open>prepare_line_abs\<close>, the smaller of
  the two maxima for \<^verbatim>\<open>prepare_line_2d\<close> and \<^verbatim>\<open>prepare_line_2d_abs\<close>. Then each of the four
  entry points returns \<^verbatim>\<open>STEPPER_MATH_ERR_TOO_FAST\<close> and has called \<^verbatim>\<open>prepare_steps\<close> for no axis.
\<close>

theorem too_fast_no_steps:
  "(distance_per_step sm \<noteq> 0 \<and> pulse_delay sm \<noteq> 0 \<and> spd \<noteq> 0 \<and> max_spd sm < spd \<longrightarrow>
      prepare_line sm dl spd = Inr (STEPPER_MATH_ERR_TOO_FAST, []) \<and>
      prepare_line_abs sm cvalue spd = Inr (STEPPER_MATH_ERR_TOO_FAST, []))
   \<and>
   (distance_per_step sm1 \<noteq> 0 \<and> pulse_delay sm1 \<noteq> 0 \<and>
    distance_per_step sm2 \<noteq> 0 \<and> pulse_delay sm2 \<noteq> 0 \<and>
    spd2 \<noteq> 0 \<and> min (max_spd sm1) (max_spd sm2) < spd2 \<longrightarrow>
      prepare_line_2d sm1 sm2 dl1 dl2 spd2 = Inr (STEPPER_MATH_ERR_TOO_FAST, []) \<and>
      prepare_line_2d_abs sm1 sm2 cvalue1 cvalue2 spd2 = Inr (STEPPER_MATH_ERR_TOO_FAST, []))"
proof (intro conjI impI)
  assume h: "distance_per_step sm \<noteq> 0 \<and> pulse_delay sm \<noteq> 0 \<and> spd \<noteq> 0 \<and> max_spd sm < spd"
  then have r: "resolve_spd spd (max_spd sm) = None"
    by (simp add: resolve_spd_None_iff)
  show "prepare_line sm dl spd = Inr (STEPPER_MATH_ERR_TOO_FAST, [])" for dl
    using h r by (simp add: prepare_line_too_fast_iff)
  then show "prepare_line_abs sm cvalue spd = Inr (STEPPER_MATH_ERR_TOO_FAST, [])"
    by (simp add: prepare_line_abs_def Let_def)
next
  assume h: "distance_per_step sm1 \<noteq> 0 \<and> pulse_delay sm1 \<noteq> 0 \<and>
    distance_per_step sm2 \<noteq> 0 \<and> pulse_delay sm2 \<noteq> 0 \<and>
    spd2 \<noteq> 0 \<and> min (max_spd sm1) (max_spd sm2) < spd2"
  then have r: "resolve_spd spd2 (max_spd_2d sm1 sm2) = None"
    by (simp add: resolve_spd_None_iff max_spd_2d_min)
  show "prepare_line_2d sm1 sm2 dl1 dl2 spd2 = Inr (STEPPER_MATH_ERR_TOO_FAST, [])" for dl1 dl2
    using h r by (simp add: prepare_line_2d_too_fast_iff)
  then show "prepare_line_2d_abs sm1 sm2 cvalue1 cvalue2 spd2
               = Inr (STEPPER_MATH_ERR_TOO_FAST, [])"
    by (simp add: prepare_line_2d_abs_def Let_def)
qed

theorem too_fast_no_steps_witness:
  "max_spd (axis 7500 1000) < 7500001 \<and>
   prepare_line (axis 7500 1000) 75000 7500001 = Inr (STEPPER_MATH_ERR_TOO_FAST, []) \<and>
   prepare_line_abs (axis 7500 1000) 75000 7500001 = Inr (STEPPER_MATH_ERR_TOO_FAST, []) \<and>
   min (max_spd (axis 7500 1000)) (max_spd (axis 1000 2000)) < 500001 \<and>
   prepare_line_2d (axis 7500 1000) (axis 1000 2000) 3000 4000 500001
     = Inr (STEPPER_MATH_ERR_TOO_FAST, []) \<and>
   prepare_line_2d_abs (axis 7500 1000) (axis 1000 2000) 3000 4000 500001
     = Inr (STEPPER_MATH_ERR_TOO_FAST, [])"
  using too_fast_no_steps [of "axis 7500 1000" 7500001 75000 75000
      "axis 7500 1000" "axis 1000 2000" 500001 3000 4000 3000 4000]
  by (simp add: max_spd_7500_1000 max_spd_1000_2000 axis_fields)

text \<open>
  C3. With \<open>spd = 0\<close> the speed check yields the maximum speed itself, neither
  \<^verbatim>\<open>prepare_line\<close> nor \<^verbatim>\<open>prepare_line_2d\<close> returns \<^verbatim>\<open>STEPPER_MATH_ERR_TOO_FAST\<close>, and (for
  well-formed axis data) the rest of the call is the timing computation at exactly that
  maximum: the transit time is \<open>transit_time dl (max_spd sm)\<close>, respectively
  \<open>transit_time dl (max_spd_2d sm1 sm2)\<close> for the path length \<open>dl\<close>.
\<close>

theorem zero_spd_is_max_spd:
  "resolve_spd 0 m = Some m \<and>
   prepare_line sm dl 0 \<noteq> Inr (STEPPER_MATH_ERR_TOO_FAST, calls) \<and>
   prepare_line_2d sm1 sm2 dl1 dl2 0 \<noteq> Inr (STEPPER_MATH_ERR_TOO_FAST, calls) \<and>
   (distance_per_step sm \<noteq> 0 \<and> pulse_delay sm \<noteq> 0 \<longrightarrow>
      prepare_line sm dl 0 =
        (case transit_time dl (max_spd sm) of
           None \<Rightarrow> Inl FloatToLong
         | Some dt \<Rightarrow>
             if long_abs (long_div dl (distance_per_step sm)) = 0 then Inl DivByZero
             else Inr (0, [(sm, long_div dl (distance_per_step sm),
                            long_div dt (long_abs (long_div dl (distance_per_step sm))))]))) \<and>
   (distance_per_step sm1 \<noteq> 0 \<and> pulse_delay sm1 \<noteq> 0 \<and>
    distance_per_step sm2 \<noteq> 0 \<and> pulse_delay sm2 \<noteq> 0 \<longrightarrow>
      prepare_line_2d sm1 sm2 dl1 dl2 0 =
        (case path_length dl1 dl2 of
           None \<Rightarrow> Inl FloatToLong
         | Some dl' \<Rightarrow>
             (case transit_time dl' (max_spd_2d sm1 sm2) of
                None \<Rightarrow> Inl FloatToLong
              | Some dt \<Rightarrow>
                  if long_abs (long_div dl1 (distance_per_step sm1)) = 0 \<or>
                     long_abs (long_div dl2 (distance_per_step sm2)) = 0 then Inl DivByZero
                  else Inr (0, [(sm1, long_div dl1 (distance_per_step sm1),
                                 long_div dt (long_abs (long_div dl1 (distance_per_step sm1)))),
                                (sm2, long_div dl2 (distance_per_step sm2),
                                 long_div dt (long_abs (long_div dl2 (distance_per_step sm2))))]))))"
proof (intro conjI impI)
  show r: "resolve_spd 0 m = Some m" for m
    by (simp add: resolve_spd_def)
  show "prepare_line sm dl 0 \<noteq> Inr (STEPPER_MATH_ERR_TOO_FAST, calls)"
    by (simp add: prepare_line_def Let_def r STEPPER_MATH_ERR_TOO_FAST_def split: option.split)
  show "prepare_line_2d sm1 sm2 dl1 dl2 0 \<noteq> Inr (STEPPER_MATH_ERR_TOO_FAST, calls)"
    by (simp add: prepare_line_2d_def Let_def r STEPPER_MATH_ERR_TOO_FAST_def split: option.split)
next
  assume "distance_per_step sm \<noteq> 0 \<and> pulse_delay sm \<noteq> 0"
  then show "prepare_line sm dl 0 =
        (case transit_time dl (max_spd sm) of
           None \<Rightarrow> Inl FloatToLong
         | Some dt \<Rightarrow>
             if long_abs (long_div dl (distance_per_step sm)) = 0 then Inl DivByZero
             else Inr (0, [(sm, long_div dl (distance_per_step sm),
                            long_div dt (long_abs (long_div dl (distance_per_step sm))))]))"
    by (simp add: prepare_line_def Let_def resolve_spd_def split: option.split)
next
  assume "distance_per_step sm1 \<noteq> 0 \<and> pulse_delay sm1 \<noteq> 0 \<and>
    distance_per_step sm2 \<noteq> 0 \<and> pulse_delay sm2 \<noteq> 0"
  then show "prepare_line_2d sm1 sm2 dl1 dl2 0 =
        (case path_length dl1 dl2 of
           None \<Rightarrow> Inl FloatToLong
         | Some dl' \<Rightarrow>
             (case transit_time dl' (max_spd_2d sm1 sm2) of
                None \<Rightarrow> Inl FloatToLong
              | Some dt \<Rightarrow>
                  if long_abs (long_div dl1 (distance_per_step sm1)) = 0 \<or>
                     long_abs (long_div dl2 (distance_per_step sm2)) = 0 then Inl DivByZero
                  else Inr (0, [(sm1, long_div dl1 (distance_per_step sm1),
                                 long_div dt (long_abs (long_div dl1 (distance_per_step sm1)))),
                                (sm2, long_div dl2 (distance_per_step sm2),
                                 long_div dt (long_abs (long_div dl2 (distance_per_step sm2))))])))"
    by (simp add: prepare_line_2d_def Let_def resolve_spd_def split: option.split)
qed

lemma transit_10000_at_max: "transit_time 10000 1000000 = Some 10000"
  by code_simp

lemma transit_5000_at_max: "transit_time 5000 1000000 = Some 5000"
  by code_simp

lemma path_3000_4000: "path_length 3000 4000 = Some 5000"
  by code_simp

lemma steps_10000_1000: "long_div 10000 1000 = 10" "long_abs 10 = 10" "long_div 10000 10 = 1000"
  by (simp_all add: long_div_def long_abs_def signed_divide_int_def)

lemma steps_3000_4000:
  "long_div 3000 1000 = 3" "long_abs 3 = 3" "long_div 5000 3 = 1666"
  "long_div 4000 1000 = 4" "long_abs 4 = 4" "long_div 5000 4 = 1250"
  by (simp_all add: long_div_def long_abs_def signed_divide_int_def)

theorem zero_spd_is_max_spd_witness:
  "distance_per_step (axis 1000 1000) \<noteq> 0 \<and> pulse_delay (axis 1000 1000) \<noteq> 0 \<and>
   max_spd (axis 1000 1000) = 1000000 \<and>
   prepare_line (axis 1000 1000) 10000 0 = Inr (0, [(axis 1000 1000, 10, 1000)]) \<and>
   prepare_line_2d (axis 1000 1000) (axis 1000 1000) 3000 4000 0
     = Inr (0, [(axis 1000 1000, 3, 1666), (axis 1000 1000, 4, 1250)])"
  using zero_spd_is_max_spd [of 0 "axis 1000 1000" 10000 "[]"
      "axis 1000 1000" "axis 1000 1000" 3000 4000]
  by (simp add: axis_fields max_spd_1000_1000 max_spd_2d_min transit_10000_at_max
      transit_5000_at_max path_3000_4000 steps_10000_1000 steps_3000_4000)

text \<open>
  C4. In \<^verbatim>\<open>prepare_line_2d\<close> the maximum that the requested speed is checked against is the
  smaller of the two maxima of the axes, each one the single-axis formula
  \<open>(distance_per_step * 1000 / pulse_delay) * 1000\<close>: for well-formed axis data the call is
  rejected exactly when the speed is not zero and above that minimum. Two axes with
  different step lengths and pulse delays (maxima \<open>7500000\<close> and \<open>500000\<close>) give \<open>500000\<close>.
\<close>

theorem max_spd_2d_is_min:
  "max_spd_2d sm1 sm2 = min (max_spd sm1) (max_spd sm2) \<and>
   max_spd sm1 = (distance_per_step sm1 * 1000 div pulse_delay sm1) * 1000 \<and>
   max_spd sm2 = (distance_per_step sm2 * 1000 div pulse_delay sm2) * 1000 \<and>
   (distance_per_step sm1 \<noteq> 0 \<and> pulse_delay sm1 \<noteq> 0 \<and>
    distance_per_step sm2 \<noteq> 0 \<and> pulse_delay sm2 \<noteq> 0 \<longrightarrow>
      (prepare_line_2d sm1 sm2 dl1 dl2 spd = Inr (STEPPER_MATH_ERR_TOO_FAST, [])
         \<longleftrightarrow> spd \<noteq> 0 \<and> min (max_spd sm1) (max_spd sm2) < spd)) \<and>
   max_spd_2d (axis 7500 1000) (axis 1000 2000) = 500000 \<and>
   max_spd_2d (axis 1000 2000) (axis 7500 1000) = 500000"
proof (intro conjI impI)
  show "max_spd_2d sm1 sm2 = min (max_spd sm1) (max_spd sm2)"
    by (rule max_spd_2d_min)
  show "max_spd sm1 = (distance_per_step sm1 * 1000 div pulse_delay sm1) * 1000"
    by (simp add: max_spd_def)
  show "max_spd sm2 = (distance_per_step sm2 * 1000 div pulse_delay sm2) * 1000"
    by (simp add: max_spd_def)
  show "max_spd_2d (axis 7500 1000) (axis 1000 2000) = 500000"
    by (simp add: max_spd_2d_min max_spd_7500_1000 max_spd_1000_2000)
  show "max_spd_2d (axis 1000 2000) (axis 7500 1000) = 500000"
    by (simp add: max_spd_2d_min max_spd_7500_1000 max_spd_1000_2000)
next
  assume "distance_per_step sm1 \<noteq> 0 \<and> pulse_delay sm1 \<noteq> 0 \<and>
    distance_per_step sm2 \<noteq> 0 \<and> pulse_delay sm2 \<noteq> 0"
  then show "prepare_line_2d sm1 sm2 dl1 dl2 spd = Inr (STEPPER_MATH_ERR_TOO_FAST, [])
         \<longleftrightarrow> spd \<noteq> 0 \<and> min (max_spd sm1) (max_spd sm2) < spd"
    by (simp add: prepare_line_2d_too_fast_iff resolve_spd_None_iff max_spd_2d_min)
qed

theorem max_spd_2d_is_min_witness:
  "distance_per_step (axis 7500 1000) \<noteq> 0 \<and> pulse_delay (axis 7500 1000) \<noteq> 0 \<and>
   distance_per_step (axis 1000 2000) \<noteq> 0 \<and> pulse_delay (axis 1000 2000) \<noteq> 0 \<and>
   max_spd_2d (axis 7500 1000) (axis 1000 2000) = min 7500000 500000 \<and>
   prepare_line_2d (axis 7500 1000) (axis 1000 2000) 3000 4000 500001
     = Inr (STEPPER_MATH_ERR_TOO_FAST, []) \<and>
   prepare_line_2d (axis 7500 1000) (axis 1000 2000) 3000 4000 500000
     \<noteq> Inr (STEPPER_MATH_ERR_TOO_FAST, [])"
  using max_spd_2d_is_min [of "axis 7500 1000" "axis 1000 2000" 3000 4000 500001]
    max_spd_2d_is_min [of "axis 7500 1000" "axis 1000 2000" 3000 4000 500000]
  by (simp add: axis_fields max_spd_7500_1000 max_spd_1000_2000)

section \<open>The absolute variants\<close>

text \<open>
  C9. \<^verbatim>\<open>prepare_line_abs\<close> is \<^verbatim>\<open>prepare_line\<close> at the displacement \<open>cvalue - current_pos\<close>, and
  \<^verbatim>\<open>prepare_line_2d_abs\<close> is \<^verbatim>\<open>prepare_line_2d\<close> at the two displacements
  \<open>cvalue_i - current_pos_i\<close>: the same return value and the same calls of \<^verbatim>\<open>prepare_steps\<close>,
  or the same fault where the relative call ends in one.
\<close>

theorem abs_variants_delegate:
  "prepare_line_abs sm cvalue spd = prepare_line sm (cvalue - current_pos sm) spd \<and>
   prepare_line_2d_abs sm1 sm2 cvalue1 cvalue2 spd
     = prepare_line_2d sm1 sm2 (cvalue1 - current_pos sm1) (cvalue2 - current_pos sm2) spd"
  by (simp add: prepare_line_abs_def prepare_line_2d_abs_def Let_def)

section \<open>Worked examples\<close>

text \<open>
  C7. One axis with \<open>distance_per_step = 1000\<close> and \<open>pulse_delay = 1000\<close>, \<open>dl = 10000\<close>,
  \<open>spd = 1000\<close>: the call succeeds with \<open>steps = 10\<close>, the transit time is \<open>10000000\<close>
  microseconds and \<open>step_delay = 1000000\<close>.
\<close>

theorem single_axis_example:
  "long_div 10000 (distance_per_step (axis 1000 1000)) = 10 \<and>
   resolve_spd 1000 (max_spd (axis 1000 1000)) = Some 1000 \<and>
   transit_time 10000 1000 = Some 10000000 \<and>
   prepare_line (axis 1000 1000) 10000 1000 = Inr (0, [(axis 1000 1000, 10, 1000000)])"
  by code_simp

text \<open>
  C8. Two equal axes with \<open>distance_per_step = 1000\<close> and \<open>pulse_delay = 1000\<close>,
  \<open>dl1 = 3000\<close>, \<open>dl2 = 4000\<close>, \<open>spd = 0\<close>: the effective maximum speed is \<open>1000000\<close> and is the
  speed used, the path length is \<open>5000\<close>, the transit time \<open>5000\<close> microseconds, and the
  call succeeds with \<open>steps1 = 3\<close>, \<open>step_delay1 = 1666\<close>, \<open>steps2 = 4\<close>, \<open>step_delay2 = 1250\<close>.
\<close>

theorem two_axis_example:
  "max_spd_2d (axis 1000 1000) (axis 1000 1000) = 1000000 \<and>
   resolve_spd 0 (max_spd_2d (axis 1000 1000) (axis 1000 1000)) = Some 1000000 \<and>
   path_length 3000 4000 = Some 5000 \<and>
   transit_time 5000 1000000 = Some 5000 \<and>
   prepare_line_2d (axis 1000 1000) (axis 1000 1000) 3000 4000 0
     = Inr (0, [(axis 1000 1000, 3, 1666), (axis 1000 1000, 4, 1250)])"
  by code_simp

section \<open>The divisor of the step delay\<close>

lemma abs_div_le:
  fixes a b :: int
  assumes "0 < b"
  shows "\<bar>a\<bar> div b \<le> \<bar>a\<bar>"
proof -
  have "\<bar>a\<bar> div b \<le> \<bar>a\<bar> div 1"
    using assms by (intro zdiv_mono2) simp_all
  then show ?thesis by simp
qed

lemma abs_sdiv:
  fixes a b :: int
  assumes "0 < b"
  shows "\<bar>a sdiv b\<bar> = \<bar>a\<bar> div b"
  using assms by (simp add: signed_divide_int_def abs_mult pos_imp_zdiv_nonneg_iff sgn_if)

lemma sint_long_div:
  assumes "0 < sint b"
  shows "sint (long_div a b) = sint a sdiv sint b"
proof -
  have r: "- (2 ^ 31) \<le> sint a" "sint a < 2 ^ 31"
    using sint_ge [of a] sint_lt [of a] by simp_all
  have "\<bar>sint a sdiv sint b\<bar> \<le> \<bar>sint a\<bar>"
    using assms by (simp add: abs_sdiv abs_div_le)
  moreover have "sint a sdiv sint b \<le> 0" if "sint a \<le> 0"
    using that assms by (simp add: signed_divide_int_def sgn_if pos_imp_zdiv_nonneg_iff)
  ultimately have "- (2 ^ 31) \<le> sint a sdiv sint b \<and> sint a sdiv sint b < 2 ^ 31"
    using r by linarith
  then have "signed_take_bit 31 (sint a sdiv sint b) = sint a sdiv sint b"
    by (simp add: signed_take_bit_int_eq_self)
  then show ?thesis
    by (simp add: long_div_def sint_sbintrunc')
qed

lemma long_abs_eq_0_iff: "long_abs x = 0 \<longleftrightarrow> x = 0"
  by (simp add: long_abs_def)

lemma long_div_eq_0_iff:
  assumes "0 < sint b"
  shows "long_div a b = 0 \<longleftrightarrow> \<bar>sint a\<bar> < sint b"
proof -
  have "long_div a b = 0 \<longleftrightarrow> sint (long_div a b) = 0"
    by (simp add: signed_eq_0_iff)
  also have "\<dots> \<longleftrightarrow> \<bar>sint a sdiv sint b\<bar> = 0"
    using assms by (simp add: sint_long_div)
  also have "\<dots> \<longleftrightarrow> \<bar>sint a\<bar> div sint b = 0"
    using assms by (simp only: abs_sdiv)
  also have "\<dots> \<longleftrightarrow> \<bar>sint a\<bar> < sint b"
    using assms by (auto simp: zdiv_eq_0_iff)
  finally show ?thesis .
qed

lemma sint_long_abs:
  assumes "sint x \<noteq> - (2 ^ 31)"
  shows "sint (long_abs x) = \<bar>sint x\<bar>"
proof (cases "0 \<le> sint x")
  case True
  then show ?thesis by (simp add: long_abs_def)
next
  case False
  have r: "- (2 ^ 31) \<le> sint x" "sint x < 2 ^ 31"
    using sint_ge [of x] sint_lt [of x] by simp_all
  with assms have "- (2 ^ 31) \<le> - sint x \<and> - sint x < 2 ^ 31" by linarith
  then have "signed_take_bit 31 (- sint x) = - sint x"
    by (simp add: signed_take_bit_int_eq_self)
  then have "sint (- x) = - sint x"
    by (simp add: sint_word_ariths)
  with False show ?thesis by (simp add: long_abs_def)
qed

lemma mod_steps_ge_1:
  assumes "0 < sint b" "sint b \<le> \<bar>sint a\<bar>" "sint a \<noteq> - (2 ^ 31) \<or> sint b \<noteq> 1"
  shows "1 \<le> sint (long_abs (long_div a b))"
proof -
  have r: "- (2 ^ 31) \<le> sint a" "sint a < 2 ^ 31"
    using sint_ge [of a] sint_lt [of a] by simp_all
  have q: "\<bar>sint (long_div a b)\<bar> = \<bar>sint a\<bar> div sint b"
    using assms(1) by (simp add: sint_long_div abs_sdiv)
  have "\<bar>sint a\<bar> div sint b < 2 ^ 31"
  proof (cases "sint a = - (2 ^ 31)")
    case False
    have "\<bar>sint a\<bar> div sint b \<le> \<bar>sint a\<bar>"
      using assms(1) by (rule abs_div_le)
    with False r show ?thesis by linarith
  next
    case True
    with assms(1,3) have b2: "2 \<le> sint b" by linarith
    have "\<bar>sint a\<bar> div sint b \<le> \<bar>sint a\<bar> div 2"
      using b2 by (intro zdiv_mono2) simp_all
    also have "\<dots> = 2 ^ 30" by (simp add: True)
    finally show ?thesis by simp
  qed
  with q have "sint (long_div a b) \<noteq> - (2 ^ 31)" by linarith
  then have "sint (long_abs (long_div a b)) = \<bar>sint a\<bar> div sint b"
    by (simp add: sint_long_abs q)
  moreover have "0 < \<bar>sint a\<bar> div sint b"
    using assms(2) by (simp only: pos_imp_zdiv_pos_iff [OF assms(1)])
  ultimately show ?thesis by simp
qed



lemma prepare_line_reaches_division:
  assumes "distance_per_step sm \<noteq> 0" "pulse_delay sm \<noteq> 0"
      and "resolve_spd spd (max_spd sm) = Some s" "transit_time dl s = Some dt"
  shows "prepare_line sm dl spd =
           (if long_abs (long_div dl (distance_per_step sm)) = 0 then Inl DivByZero
            else Inr (0, [(sm, long_div dl (distance_per_step sm),
                           long_div dt (long_abs (long_div dl (distance_per_step sm))))]))"
  using assms by (simp add: prepare_line_def Let_def)

lemma prepare_line_2d_reaches_division:
  assumes "distance_per_step sm1 \<noteq> 0" "pulse_delay sm1 \<noteq> 0"
      and "distance_per_step sm2 \<noteq> 0" "pulse_delay sm2 \<noteq> 0"
      and "resolve_spd spd (max_spd_2d sm1 sm2) = Some s"
      and "path_length dl1 dl2 = Some dl" "transit_time dl s = Some dt"
  shows "prepare_line_2d sm1 sm2 dl1 dl2 spd =
           (if long_abs (long_div dl1 (distance_per_step sm1)) = 0 \<or>
               long_abs (long_div dl2 (distance_per_step sm2)) = 0 then Inl DivByZero
            else Inr (0, [(sm1, long_div dl1 (distance_per_step sm1),
                           long_div dt (long_abs (long_div dl1 (distance_per_step sm1)))),
                          (sm2, long_div dl2 (distance_per_step sm2),
                           long_div dt (long_abs (long_div dl2 (distance_per_step sm2))))]))"
  using assms by (simp add: prepare_line_2d_def Let_def)

lemma prepare_line_no_div_by_zero:
  assumes "distance_per_step sm \<noteq> 0" "pulse_delay sm \<noteq> 0"
      and "long_abs (long_div dl (distance_per_step sm)) \<noteq> 0"
  shows "prepare_line sm dl spd \<noteq> Inl DivByZero"
  using assms by (simp add: prepare_line_def Let_def split: option.split)

lemma prepare_line_2d_no_div_by_zero:
  assumes "distance_per_step sm1 \<noteq> 0" "pulse_delay sm1 \<noteq> 0"
      and "distance_per_step sm2 \<noteq> 0" "pulse_delay sm2 \<noteq> 0"
      and "long_abs (long_div dl1 (distance_per_step sm1)) \<noteq> 0"
      and "long_abs (long_div dl2 (distance_per_step sm2)) \<noteq> 0"
  shows "prepare_line_2d sm1 sm2 dl1 dl2 spd \<noteq> Inl DivByZero"
  using assms by (simp add: prepare_line_2d_def Let_def split: option.split)

lemma sint_pos_nonzero: "0 < sint (w :: 32 word) \<Longrightarrow> w \<noteq> 0"
  by auto

lemma mod_steps_zero_iff:
  assumes "0 < sint b"
  shows "long_abs (long_div a b) = 0 \<longleftrightarrow> \<bar>sint a\<bar> < sint b"
  using assms by (simp add: long_abs_eq_0_iff long_div_eq_0_iff)

text \<open>
  The division \<^verbatim>\<open>dt / mod_steps\<close> and the full step. The axis data is well-formed
  (\<open>distance_per_step\<close> positive, \<open>pulse_delay\<close> not zero). If the displacement reaches a full
  step, \<open>distance_per_step \<le> |dl|\<close>, then the divisor \<open>mod_steps\<close> is not zero, the call does
  not divide by zero, and \<open>mod_steps \<ge> 1\<close> at every input but \<open>dl = -2^31\<close> with
  \<open>distance_per_step = 1\<close>. If the displacement is smaller than a step, then \<open>mod_steps = 0\<close>,
  and a call that gets as far as the division (speed accepted, transit time computed)
  divides by zero. The same holds for \<^verbatim>\<open>prepare_line_2d\<close>, where both displacements must reach
  a full step and one short displacement suffices for the division by zero.
\<close>

lemma step_delay_divisor:
  "(0 < sint (distance_per_step sm) \<and> pulse_delay sm \<noteq> 0 \<and>
    sint (distance_per_step sm) \<le> \<bar>sint dl\<bar> \<longrightarrow>
      long_abs (long_div dl (distance_per_step sm)) \<noteq> 0 \<and>
      prepare_line sm dl spd \<noteq> Inl DivByZero \<and>
      (sint dl \<noteq> - (2 ^ 31) \<or> sint (distance_per_step sm) \<noteq> 1 \<longrightarrow>
         1 \<le> sint (long_abs (long_div dl (distance_per_step sm)))))
   \<and>
   (0 < sint (distance_per_step sm) \<and> pulse_delay sm \<noteq> 0 \<and>
    \<bar>sint dl'\<bar> < sint (distance_per_step sm) \<longrightarrow>
      long_abs (long_div dl' (distance_per_step sm)) = 0 \<and>
      (resolve_spd spd (max_spd sm) = Some s \<and> transit_time dl' s = Some dt \<longrightarrow>
         prepare_line sm dl' spd = Inl DivByZero))
   \<and>
   (0 < sint (distance_per_step sm1) \<and> pulse_delay sm1 \<noteq> 0 \<and>
    0 < sint (distance_per_step sm2) \<and> pulse_delay sm2 \<noteq> 0 \<and>
    sint (distance_per_step sm1) \<le> \<bar>sint dl1\<bar> \<and>
    sint (distance_per_step sm2) \<le> \<bar>sint dl2\<bar> \<longrightarrow>
      long_abs (long_div dl1 (distance_per_step sm1)) \<noteq> 0 \<and>
      long_abs (long_div dl2 (distance_per_step sm2)) \<noteq> 0 \<and>
      prepare_line_2d sm1 sm2 dl1 dl2 spd \<noteq> Inl DivByZero \<and>
      (sint dl1 \<noteq> - (2 ^ 31) \<or> sint (distance_per_step sm1) \<noteq> 1 \<longrightarrow>
         1 \<le> sint (long_abs (long_div dl1 (distance_per_step sm1)))) \<and>
      (sint dl2 \<noteq> - (2 ^ 31) \<or> sint (distance_per_step sm2) \<noteq> 1 \<longrightarrow>
         1 \<le> sint (long_abs (long_div dl2 (distance_per_step sm2)))))
   \<and>
   (0 < sint (distance_per_step sm1) \<and> pulse_delay sm1 \<noteq> 0 \<and>
    0 < sint (distance_per_step sm2) \<and> pulse_delay sm2 \<noteq> 0 \<and>
    (\<bar>sint dl1'\<bar> < sint (distance_per_step sm1) \<or>
     \<bar>sint dl2'\<bar> < sint (distance_per_step sm2)) \<and>
    resolve_spd spd (max_spd_2d sm1 sm2) = Some s2 \<and>
    path_length dl1' dl2' = Some pl \<and> transit_time pl s2 = Some dt2 \<longrightarrow>
      prepare_line_2d sm1 sm2 dl1' dl2' spd = Inl DivByZero)"
proof (intro conjI impI)
  assume h: "0 < sint (distance_per_step sm) \<and> pulse_delay sm \<noteq> 0 \<and>
    sint (distance_per_step sm) \<le> \<bar>sint dl\<bar>"
  then have nz: "distance_per_step sm \<noteq> 0" by auto
  from h show m: "long_abs (long_div dl (distance_per_step sm)) \<noteq> 0"
    by (simp add: mod_steps_zero_iff)
  from h nz m show "prepare_line sm dl spd \<noteq> Inl DivByZero"
    by (simp add: prepare_line_no_div_by_zero)
  assume "sint dl \<noteq> - (2 ^ 31) \<or> sint (distance_per_step sm) \<noteq> 1"
  with h show "1 \<le> sint (long_abs (long_div dl (distance_per_step sm)))"
    by (intro mod_steps_ge_1) simp_all
next
  assume h: "0 < sint (distance_per_step sm) \<and> pulse_delay sm \<noteq> 0 \<and>
    \<bar>sint dl'\<bar> < sint (distance_per_step sm)"
  then have nz: "distance_per_step sm \<noteq> 0" by auto
  from h show m: "long_abs (long_div dl' (distance_per_step sm)) = 0"
    by (simp add: mod_steps_zero_iff)
  assume "resolve_spd spd (max_spd sm) = Some s \<and> transit_time dl' s = Some dt"
  with h nz m show "prepare_line sm dl' spd = Inl DivByZero"
    by (simp add: prepare_line_reaches_division)
next
  assume h: "0 < sint (distance_per_step sm1) \<and> pulse_delay sm1 \<noteq> 0 \<and>
    0 < sint (distance_per_step sm2) \<and> pulse_delay sm2 \<noteq> 0 \<and>
    sint (distance_per_step sm1) \<le> \<bar>sint dl1\<bar> \<and>
    sint (distance_per_step sm2) \<le> \<bar>sint dl2\<bar>"
  then have nz: "distance_per_step sm1 \<noteq> 0" "distance_per_step sm2 \<noteq> 0" by auto
  from h show m1: "long_abs (long_div dl1 (distance_per_step sm1)) \<noteq> 0"
    by (simp add: mod_steps_zero_iff)
  from h show m2: "long_abs (long_div dl2 (distance_per_step sm2)) \<noteq> 0"
    by (simp add: mod_steps_zero_iff)
  from h nz m1 m2 show "prepare_line_2d sm1 sm2 dl1 dl2 spd \<noteq> Inl DivByZero"
    by (simp add: prepare_line_2d_no_div_by_zero)
  {
    assume "sint dl1 \<noteq> - (2 ^ 31) \<or> sint (distance_per_step sm1) \<noteq> 1"
    with h show "1 \<le> sint (long_abs (long_div dl1 (distance_per_step sm1)))"
      by (intro mod_steps_ge_1) simp_all
  }
  {
    assume "sint dl2 \<noteq> - (2 ^ 31) \<or> sint (distance_per_step sm2) \<noteq> 1"
    with h show "1 \<le> sint (long_abs (long_div dl2 (distance_per_step sm2)))"
      by (intro mod_steps_ge_1) simp_all
  }
next
  assume h: "0 < sint (distance_per_step sm1) \<and> pulse_delay sm1 \<noteq> 0 \<and>
    0 < sint (distance_per_step sm2) \<and> pulse_delay sm2 \<noteq> 0 \<and>
    (\<bar>sint dl1'\<bar> < sint (distance_per_step sm1) \<or>
     \<bar>sint dl2'\<bar> < sint (distance_per_step sm2)) \<and>
    resolve_spd spd (max_spd_2d sm1 sm2) = Some s2 \<and>
    path_length dl1' dl2' = Some pl \<and> transit_time pl s2 = Some dt2"
  then have nz: "distance_per_step sm1 \<noteq> 0" "distance_per_step sm2 \<noteq> 0" by auto
  from h have "long_abs (long_div dl1' (distance_per_step sm1)) = 0 \<or>
     long_abs (long_div dl2' (distance_per_step sm2)) = 0"
    by (simp add: mod_steps_zero_iff)
  with h nz show "prepare_line_2d sm1 sm2 dl1' dl2' spd = Inl DivByZero"
    by (simp add: prepare_line_2d_reaches_division)
qed

lemma transit_500_at_max: "transit_time 500 1000000 = Some 500"
  by code_simp

lemma path_500_3000: "path_length 500 3000 = Some 3041"
  by code_simp

lemma transit_3041_at_max: "transit_time 3041 1000000 = Some 3041"
  by code_simp

lemma sint_small: "sint (1000 :: 32 word) = 1000" "sint (10000 :: 32 word) = 10000"
  "sint (500 :: 32 word) = 500" "sint (3000 :: 32 word) = 3000" "sint (4000 :: 32 word) = 4000"
  by simp_all

lemma step_delay_divisor_instance:
  "0 < sint (distance_per_step (axis 1000 1000)) \<and> pulse_delay (axis 1000 1000) \<noteq> 0 \<and>
   long_abs (long_div 10000 (distance_per_step (axis 1000 1000))) \<noteq> 0 \<and>
   1 \<le> sint (long_abs (long_div 10000 (distance_per_step (axis 1000 1000)))) \<and>
   prepare_line (axis 1000 1000) 10000 0 \<noteq> Inl DivByZero \<and>
   long_abs (long_div 500 (distance_per_step (axis 1000 1000))) = 0 \<and>
   prepare_line (axis 1000 1000) 500 0 = Inl DivByZero \<and>
   prepare_line_2d (axis 1000 1000) (axis 1000 1000) 3000 4000 0 \<noteq> Inl DivByZero \<and>
   prepare_line_2d (axis 1000 1000) (axis 1000 1000) 500 3000 0 = Inl DivByZero"
  using step_delay_divisor [of "axis 1000 1000" 10000 0 500 1000000 500
      "axis 1000 1000" "axis 1000 1000" 3000 4000 500 3000 1000000 3041 3041]
  by (simp add: axis_fields sint_small max_spd_1000_1000 max_spd_2d_min resolve_spd_def
      transit_500_at_max path_500_3000 transit_3041_at_max)

lemma mod_steps_large_step:
  "long_abs (long_div (- 2147483648) (distance_per_step (axis 2 1))) = 1073741824"
  by code_simp

text \<open>
  C5. A displacement of at least one full step must give a divisor \<open>mod_steps \<ge> 1\<close>. The code
  misses one input. For \<open>dl = -2^31\<close> and \<open>distance_per_step = 1\<close> (so \<open>distance_per_step \<le> |dl|\<close>)
  the step count is \<open>-2^31\<close>; \<^verbatim>\<open>-steps\<close> overflows the \<^verbatim>\<open>long\<close> and is \<open>-2^31\<close> again in two's
  complement, so the value that the source calls the modulus of the step count is negative.
  With \<open>pulse_delay = 1\<close> and \<open>spd = 0\<close> the call does not return the too-fast code: it
  succeeds, having divided \<open>dt = -2^31\<close> by \<open>mod_steps = -2^31\<close>.
\<close>

theorem mod_steps_at_long_min:
  "0 < sint (distance_per_step (axis 1 1)) \<and>
   sint (distance_per_step (axis 1 1)) \<le> \<bar>sint (- 2147483648 :: 32 word)\<bar> \<and>
   long_div (- 2147483648) (distance_per_step (axis 1 1)) = - 2147483648 \<and>
   long_abs (long_div (- 2147483648) (distance_per_step (axis 1 1))) = - 2147483648 \<and>
   sint (long_abs (long_div (- 2147483648) (distance_per_step (axis 1 1)))) = - 2147483648 \<and>
   \<not> 1 \<le> sint (long_abs (long_div (- 2147483648) (distance_per_step (axis 1 1)))) \<and>
   transit_time (- 2147483648) (max_spd (axis 1 1)) = Some (- 2147483648) \<and>
   prepare_line (axis 1 1) (- 2147483648) 0 = Inr (0, [(axis 1 1, - 2147483648, 1)])"
  by code_simp

section \<open>Properties of the rounding\<close>

text \<open>
  The rounding function \<open>fl\<close> is what the model of \<^verbatim>\<open>double\<close> rests on. It is symmetric,
  exact on the integers below \<open>2^53\<close>, within a relative error of \<open>2^-53\<close>, and never rounds
  below an integer (up to \<open>2^53\<close>) that its argument has reached.
\<close>

lemma pow2_powi: "pow2 e = 2 powi e"
  by (simp add: pow2_def power_int_def power_inverse inverse_eq_divide power_one_over)

lemma pow2_pos: "0 < pow2 e"
  by (simp add: pow2_powi)

lemma pow2_add: "pow2 (a + b) = pow2 a * pow2 b"
  by (simp add: pow2_powi power_int_add)

lemma pow2_nat: "0 \<le> e \<Longrightarrow> pow2 e = of_int (2 ^ nat e)"
  by (simp add: pow2_def)

lemma pow2_mono: "a \<le> b \<Longrightarrow> pow2 a \<le> pow2 b"
  by (simp add: pow2_powi power_int_increasing)

lemma pow2_less_imp: "pow2 a < pow2 b \<Longrightarrow> a < b"
  using pow2_mono [of b a] by (cases "a < b") auto

lemma bitlen_bounds:
  "0 < n \<Longrightarrow> 1 \<le> bitlen n \<and> 2 ^ nat (bitlen n - 1) \<le> n \<and> n < 2 ^ nat (bitlen n)"
proof (induction n rule: bitlen.induct)
  case (1 n)
  show ?case
  proof (cases "n div 2 \<le> 0")
    case True
    with "1.prems" have "n = 1" by linarith
    then show ?thesis by (simp add: bitlen.simps)
  next
    case False
    then have pos: "0 < n div 2" by simp
    define k where "k = bitlen (n div 2)"
    from "1.IH" "1.prems" pos
    have ih: "1 \<le> k" "2 ^ nat (k - 1) \<le> n div 2" "n div 2 < 2 ^ nat k"
      by (simp_all add: k_def)
    have bl: "bitlen n = 1 + k"
      using "1.prems" by (simp add: bitlen.simps [of n] k_def)
    have nk: "nat (1 + k - 1) = Suc (nat (k - 1))" "nat (1 + k) = Suc (nat k)"
      using ih(1) by simp_all
    have "(2::int) ^ nat k = 2 * 2 ^ nat (k - 1)"
      using ih(1) by (simp flip: power_Suc add: Suc_nat_eq_nat_zadd1)
    moreover have "2 * 2 ^ nat (k - 1) \<le> n" using ih(2) by linarith
    moreover have "n < 2 * 2 ^ nat k" using ih(3) by linarith
    ultimately show ?thesis
      using ih(1) by (simp add: bl nk)
  qed
qed

lemma ilog2_bounds:
  assumes "0 < x"
  shows "pow2 (ilog2 x) \<le> x \<and> x < pow2 (ilog2 x + 1)"
proof -
  obtain a b where q: "quotient_of x = (a, b)" by (cases "quotient_of x")
  then have b: "0 < b" and x: "x = of_int a / of_int b"
    by (auto dest: quotient_of_denom_pos quotient_of_div)
  with assms have a: "0 < a" by (simp add: zero_less_divide_iff)
  define la lb where "la = bitlen a" and "lb = bitlen b"
  from bitlen_bounds [OF a] have A: "1 \<le> la" "2 ^ nat (la - 1) \<le> a" "a < 2 ^ nat la"
    by (simp_all add: la_def)
  from bitlen_bounds [OF b] have B: "1 \<le> lb" "2 ^ nat (lb - 1) \<le> b" "b < 2 ^ nat lb"
    by (simp_all add: lb_def)
  have Ar: "pow2 (la - 1) \<le> of_int a" "of_int a < pow2 la"
    using A by (simp_all add: pow2_nat del: of_int_power)
  have Br: "pow2 (lb - 1) \<le> of_int b" "of_int b < pow2 lb"
    using B by (simp_all add: pow2_nat del: of_int_power)
  have br: "(0::rat) < of_int b" using b by simp
  have lo: "pow2 (la - lb - 1) < x"
  proof -
    have "pow2 (la - lb - 1) * of_int b < pow2 (la - lb - 1) * pow2 lb"
      using Br(2) pow2_pos by (simp add: mult_strict_left_mono)
    also have "\<dots> = pow2 (la - 1)" by (simp flip: pow2_add)
    also have "\<dots> \<le> of_int a" by (rule Ar(1))
    finally show ?thesis using br by (simp add: x pos_less_divide_eq)
  qed
  have hi: "x < pow2 (la - lb + 1)"
  proof -
    have "of_int a < pow2 la" by (rule Ar(2))
    also have "\<dots> = pow2 (la - lb + 1) * pow2 (lb - 1)" by (simp flip: pow2_add)
    also have "\<dots> \<le> pow2 (la - lb + 1) * of_int b"
      using Br(1) pow2_pos [of "la - lb + 1"] by (simp add: mult_left_mono)
    finally show ?thesis using br by (simp add: x pos_divide_less_eq)
  qed
  show ?thesis
  proof (cases "pow2 (la - lb) \<le> x")
    case True
    then have "ilog2 x = la - lb" by (simp add: ilog2_def q la_def lb_def Let_def)
    with True hi show ?thesis by simp
  next
    case False
    then have "ilog2 x = la - lb - 1" by (simp add: ilog2_def q la_def lb_def Let_def)
    with False lo show ?thesis by simp
  qed
qed

lemma round_even_of_int: "round_even (of_int n) = n"
  by (simp add: round_even_def Let_def)

lemma round_even_err: "\<bar>of_int (round_even t) - t\<bar> \<le> 1 / 2"
proof -
  define f where "f = t - of_int \<lfloor>t\<rfloor>"
  have f: "0 \<le> f" "f < 1" unfolding f_def by linarith+
  consider "f < 1 / 2" | "1 / 2 < f" | "f = 1 / 2" by linarith
  then have "of_int (round_even t) - t = - f \<and> f \<le> 1 / 2
           \<or> of_int (round_even t) - t = 1 - f \<and> 1 / 2 \<le> f"
  proof cases
    case 1
    then have "round_even t = \<lfloor>t\<rfloor>" by (simp add: round_even_def Let_def f_def)
    then have "of_int (round_even t) - t = - f" by (simp add: f_def)
    with 1 show ?thesis by simp
  next
    case 2
    then have "round_even t = \<lfloor>t\<rfloor> + 1" by (simp add: round_even_def Let_def f_def)
    then have "of_int (round_even t) - t = 1 - f" by (simp add: f_def)
    with 2 show ?thesis by simp
  next
    case 3
    then have "round_even t = \<lfloor>t\<rfloor> \<or> round_even t = \<lfloor>t\<rfloor> + 1"
      by (simp add: round_even_def Let_def f_def)
    then have "of_int (round_even t) - t = - f \<or> of_int (round_even t) - t = 1 - f"
      by (auto simp: f_def)
    with 3 show ?thesis by auto
  qed
  with f show ?thesis by (auto simp: abs_if)
qed

lemma round_even_ge: "of_int k \<le> t \<Longrightarrow> k \<le> round_even t"
proof -
  assume "of_int k \<le> t"
  then have "k \<le> \<lfloor>t\<rfloor>" by (simp add: le_floor_iff)
  then show ?thesis by (auto simp: round_even_def Let_def)
qed

lemma round_even_minus: "round_even (- t) = - round_even t"
proof (cases "t \<in> \<int>")
  case True
  then obtain n where "t = of_int n" by (auto elim: Ints_cases)
  then show ?thesis
    using round_even_of_int [of "- n"] round_even_of_int [of n] by simp
next
  case False
  have ne: "t \<noteq> of_int \<lfloor>t\<rfloor>"
  proof
    assume "t = of_int \<lfloor>t\<rfloor>"
    then have "t \<in> \<int>" by (metis Ints_of_int)
    with False show False ..
  qed
  then have fl: "\<lfloor>- t\<rfloor> = - \<lfloor>t\<rfloor> - 1"
    by (simp add: floor_minus ceiling_altdef)
  note ne
  moreover have "of_int \<lfloor>t\<rfloor> \<le> t" "t < of_int \<lfloor>t\<rfloor> + 1" by linarith+
  ultimately have lt: "of_int \<lfloor>t\<rfloor> < t" "t < of_int \<lfloor>t\<rfloor> + 1" by linarith+
  define f where "f = t - of_int \<lfloor>t\<rfloor>"
  have f: "0 < f" "f < 1" using lt by (simp_all add: f_def)
  have g: "- t - of_int (- \<lfloor>t\<rfloor> - 1) = 1 - f" by (simp add: f_def)
  consider "f < 1 / 2" | "1 / 2 < f" | "f = 1 / 2" by linarith
  then show ?thesis
  proof cases
    case 1
    then show ?thesis
      unfolding round_even_def Let_def fl g f_def [symmetric] by simp
  next
    case 2
    then show ?thesis
      unfolding round_even_def Let_def fl g f_def [symmetric] by simp
  next
    case 3
    then show ?thesis
      unfolding round_even_def Let_def fl g f_def [symmetric] by simp
  qed
qed


lemma fl_minus: "fl (- x) = - fl x"
  by (simp add: fl_def Let_def round_even_minus)

lemma ilog2_less:
  assumes "0 < x" "x < pow2 n"
  shows "ilog2 x < n"
proof -
  have "pow2 (ilog2 x) \<le> x" using ilog2_bounds [OF assms(1)] by simp
  with assms(2) have "pow2 (ilog2 x) < pow2 n" by simp
  then show ?thesis by (rule pow2_less_imp)
qed

lemma fl_of_int:
  assumes "\<bar>n\<bar> < 2 ^ 53"
  shows "fl (of_int n) = of_int n"
proof (cases "n = 0")
  case True
  then show ?thesis by (simp add: fl_def)
next
  case False
  define x :: rat where "x = of_int n"
  have x0: "x \<noteq> 0" "0 < \<bar>x\<bar>" using False by (simp_all add: x_def)
  have "\<bar>x\<bar> = of_int \<bar>n\<bar>" by (simp add: x_def)
  also have "\<dots> < of_int (2 ^ 53)" using assms by (simp only: of_int_less_iff)
  also have "\<dots> = pow2 53" by (simp add: pow2_def)
  finally have "ilog2 \<bar>x\<bar> < 53" using x0(2) by (intro ilog2_less)
  then have k: "0 \<le> 52 - ilog2 \<bar>x\<bar>" by simp
  define s where "s = pow2 (52 - ilog2 \<bar>x\<bar>)"
  have s: "s = of_int (2 ^ nat (52 - ilog2 \<bar>x\<bar>))" "0 < s"
    using k by (simp_all add: s_def pow2_nat pow2_pos del: of_int_power)
  have "x * s = of_int (n * 2 ^ nat (52 - ilog2 \<bar>x\<bar>))"
    by (simp add: x_def s(1))
  then have "of_int (round_even (x * s)) = x * s"
    by (simp only: round_even_of_int)
  then have "fl x = x * s / s"
    using x0(1) by (simp add: fl_def Let_def s_def)
  with s(2) show ?thesis by (simp add: x_def)
qed

lemma fl_rel_err: "\<bar>fl x - x\<bar> \<le> \<bar>x\<bar> / 2 ^ 53"
proof (cases "x = 0")
  case True
  then show ?thesis by (simp add: fl_def)
next
  case False
  define e where "e = ilog2 \<bar>x\<bar>"
  define s where "s = pow2 (52 - e)"
  have s: "0 < s" by (simp add: s_def pow2_pos)
  have lo: "pow2 e \<le> \<bar>x\<bar>"
    using ilog2_bounds [of "\<bar>x\<bar>"] False by (simp add: e_def)
  have flx: "fl x = of_int (round_even (x * s)) / s"
    using False by (simp add: fl_def Let_def s_def e_def)
  have "fl x - x = (of_int (round_even (x * s)) - x * s) / s"
    using s by (simp add: flx field_simps)
  then have "\<bar>fl x - x\<bar> = \<bar>of_int (round_even (x * s)) - x * s\<bar> / s"
    using s by (simp add: abs_divide)
  also have "\<dots> \<le> (1 / 2) / s"
    using s by (intro divide_right_mono round_even_err) simp
  also have "\<dots> = pow2 e / 2 ^ 53"
  proof -
    have "pow2 e * (2 * s) = pow2 (e + (1 + (52 - e)))"
      unfolding pow2_add s_def by (simp add: pow2_def)
    also have "\<dots> = 2 ^ 53" by (simp add: pow2_def)
    finally show ?thesis using s by (simp add: field_simps)
  qed
  also have "\<dots> \<le> \<bar>x\<bar> / 2 ^ 53"
    using lo by (simp add: divide_right_mono)
  finally show ?thesis .
qed

lemma fl_ge_of_int:
  assumes "of_int k \<le> x" "0 < k" "k \<le> 2 ^ 53"
  shows "of_int k \<le> fl x"
proof -
  have xpos: "0 < x" using assms(1,2) by (meson less_le_trans of_int_0_less_iff)
  define e where "e = ilog2 \<bar>x\<bar>"
  define s where "s = pow2 (52 - e)"
  have s: "0 < s" by (simp add: s_def pow2_pos)
  have flx: "fl x = of_int (round_even (x * s)) / s"
    using xpos by (simp add: fl_def Let_def s_def e_def)
  have lo: "pow2 e \<le> x"
    using ilog2_bounds [of "\<bar>x\<bar>"] xpos by (simp add: e_def)
  show ?thesis
  proof (cases "e \<le> 52")
    case True
    then have si: "s = of_int (2 ^ nat (52 - e))"
      by (simp add: s_def pow2_nat del: of_int_power)
    have "of_int k * s \<le> x * s" using assms(1) s by (simp add: mult_right_mono)
    then have "of_int (k * 2 ^ nat (52 - e)) \<le> x * s" by (simp add: si)
    then have "k * 2 ^ nat (52 - e) \<le> round_even (x * s)" by (rule round_even_ge)
    then have "(of_int (k * 2 ^ nat (52 - e)) :: rat) \<le> of_int (round_even (x * s))"
      by (simp only: of_int_le_iff)
    then have "of_int k * s \<le> of_int (round_even (x * s))" by (simp add: si)
    then show ?thesis using s by (simp add: flx pos_le_divide_eq)
  next
    case False
    then have e: "53 \<le> e" by simp
    have "pow2 e * s = pow2 52" unfolding s_def by (simp flip: pow2_add)
    also have "\<dots> = of_int (2 ^ 52)" by (simp add: pow2_def)
    finally have "of_int (2 ^ 52) \<le> x * s" using lo s by (metis mult_right_mono less_imp_le)
    then have "2 ^ 52 \<le> round_even (x * s)" by (rule round_even_ge)
    then have "(of_int (2 ^ 52) :: rat) \<le> of_int (round_even (x * s))"
      by (simp only: of_int_le_iff)
    then have "pow2 e * s \<le> of_int (round_even (x * s))"
      using \<open>pow2 e * s = pow2 52\<close> by (simp add: pow2_def)
    then have "pow2 e \<le> fl x" using s by (simp add: flx pos_le_divide_eq)
    moreover have "of_int k \<le> pow2 e"
    proof -
      have "(of_int k :: rat) \<le> of_int (2 ^ 53)" using assms(3) by (simp only: of_int_le_iff)
      also have "\<dots> = pow2 53" by (simp add: pow2_def)
      also have "\<dots> \<le> pow2 e" using e by (rule pow2_mono)
      finally show ?thesis .
    qed
    ultimately show ?thesis by simp
  qed
qed



section \<open>Direction and step delay\<close>

text \<open>
  The step count follows the sign of the displacement. The step delay does not stay the
  same: if a call with a positive displacement succeeds with \<open>(steps, step_delay)\<close>, the call
  with the negated displacement succeeds with \<open>(- steps, - step_delay)\<close>, the negation of the
  delay taken modulo \<open>2^32\<close>.
\<close>

lemma sint_neg:
  assumes "sint (x :: 32 word) \<noteq> - (2 ^ 31)"
  shows "sint (- x) = - sint x"
proof -
  have r: "- (2 ^ 31) \<le> sint x" "sint x < 2 ^ 31"
    using sint_ge [of x] sint_lt [of x] by simp_all
  with assms have "- (2 ^ 31) \<le> - sint x \<and> - sint x < 2 ^ 31" by linarith
  then have "signed_take_bit 31 (- sint x) = - sint x"
    by (simp add: signed_take_bit_int_eq_self)
  then show ?thesis by (simp add: sint_word_ariths)
qed

lemma long_div_neg:
  assumes "sint a \<noteq> - (2 ^ 31)"
  shows "long_div (- a) b = - long_div a b"
  using assms by (simp add: long_div_def sint_neg signed_divide_int_def)

lemma long_abs_neg: "long_abs (- x) = long_abs x"
proof (cases "sint x = - (2 ^ 31)")
  case True
  then have "sint x = sint (- (2 ^ 31) :: 32 word)" by simp
  then have "x = - (2 ^ 31)" by (rule signed_word_eqI)
  then show ?thesis by (simp add: long_abs_def)
next
  case False
  then have "sint (- x) = - sint x" by (rule sint_neg)
  moreover have "sint x = 0 \<longleftrightarrow> x = 0" by (simp add: signed_eq_0_iff)
  ultimately show ?thesis by (auto simp: long_abs_def)
qed

lemma fl_nonneg: "0 \<le> x \<Longrightarrow> 0 \<le> fl x"
proof -
  assume x: "0 \<le> x"
  have "0 \<le> round_even (x * pow2 (52 - ilog2 \<bar>x\<bar>))"
    using x pow2_pos [of "52 - ilog2 \<bar>x\<bar>"] by (intro round_even_ge) simp
  then show ?thesis
    using pow2_pos [of "52 - ilog2 \<bar>x\<bar>"] by (simp add: fl_def Let_def)
qed

lemma long_of_double_nonneg:
  assumes "0 \<le> y" "long_of_double y = Some t"
  shows "sint t = \<lfloor>y\<rfloor>" and "0 \<le> sint t" and "long_of_double (- y) = Some (- t)"
proof -
  have f0: "0 \<le> \<lfloor>y\<rfloor>" using assms(1) by simp
  from assms have r: "\<lfloor>y\<rfloor> < 2 ^ 31" and t: "t = word_of_int \<lfloor>y\<rfloor>"
    by (auto simp: long_of_double_def Let_def split: if_splits)
  have "signed_take_bit 31 \<lfloor>y\<rfloor> = \<lfloor>y\<rfloor>"
    using f0 r by (simp add: signed_take_bit_int_eq_self)
  then show st: "sint t = \<lfloor>y\<rfloor>" by (simp add: t sint_sbintrunc')
  with f0 show "0 \<le> sint t" by simp
  show "long_of_double (- y) = Some (- t)"
  proof (cases "y = 0")
    case True
    with assms(2) show ?thesis by (simp add: long_of_double_def)
  next
    case False
    with assms(1) have "\<not> 0 \<le> - y" by simp
    moreover have "- (2 ^ 31) \<le> - \<lfloor>y\<rfloor> \<and> - \<lfloor>y\<rfloor> < 2 ^ 31"
      using f0 r by linarith
    ultimately show ?thesis
      by (simp add: long_of_double_def Let_def t)
  qed
qed

lemma transit_time_neg:
  assumes "0 < sint dl" "transit_time dl spd = Some dt"
  shows "transit_time (- dl) spd = Some (- dt)" and "0 \<le> sint dt"
proof -
  from assms(2) have spd: "spd \<noteq> 0" by (auto simp: transit_time_def)
  define y where "y = fl (fl (double_of_long dl / double_of_ulong spd) * 1000000)"
  have "0 \<le> sint dl" "0 \<le> uint spd" using assms(1) by simp_all
  then have "(0::rat) \<le> of_int (sint dl)" "(0::rat) \<le> of_int (uint spd)"
    by (simp_all only: of_int_0_le_iff)
  then have "0 \<le> double_of_long dl / double_of_ulong spd"
    unfolding double_of_long_def double_of_ulong_def by (rule divide_nonneg_nonneg)
  then have y0: "0 \<le> y" unfolding y_def by (intro fl_nonneg mult_nonneg_nonneg) simp_all
  have lod: "long_of_double y = Some dt"
    using assms(2) spd by (simp add: transit_time_def y_def)
  have "sint dl \<noteq> - (2 ^ 31)" using assms(1) by simp
  then have "double_of_long (- dl) = - double_of_long dl"
    by (simp add: double_of_long_def sint_neg)
  then have "transit_time (- dl) spd = long_of_double (- y)"
    using spd by (simp add: transit_time_def y_def fl_minus)
  then show "transit_time (- dl) spd = Some (- dt)"
    using long_of_double_nonneg(3) [OF y0 lod] by simp
  show "0 \<le> sint dt" using long_of_double_nonneg(2) [OF y0 lod] .
qed


lemma prepare_line_success:
  assumes "prepare_line sm dl spd = Inr (0, calls)"
  obtains s dt where "distance_per_step sm \<noteq> 0" "pulse_delay sm \<noteq> 0"
    "resolve_spd spd (max_spd sm) = Some s" "transit_time dl s = Some dt"
    "long_abs (long_div dl (distance_per_step sm)) \<noteq> 0"
    "calls = [(sm, long_div dl (distance_per_step sm),
               long_div dt (long_abs (long_div dl (distance_per_step sm))))]"
  using assms
  by (auto simp: prepare_line_def Let_def STEPPER_MATH_ERR_TOO_FAST_def
      split: if_splits option.splits)

lemma prepare_line_neg:
  assumes "0 < sint (distance_per_step sm)" "0 < sint dl"
      and "prepare_line sm dl spd = Inr (0, [(sm, steps, step_delay)])"
  shows "prepare_line sm (- dl) spd = Inr (0, [(sm, - steps, - step_delay)])"
proof -
  let ?d = "distance_per_step sm"
  from assms(3) obtain s dt where h: "?d \<noteq> 0" "pulse_delay sm \<noteq> 0"
    "resolve_spd spd (max_spd sm) = Some s" "transit_time dl s = Some dt"
    "long_abs (long_div dl ?d) \<noteq> 0"
    "[(sm, steps, step_delay)] = [(sm, long_div dl ?d, long_div dt (long_abs (long_div dl ?d)))]"
    by (rule prepare_line_success)
  have dlmin: "sint dl \<noteq> - (2 ^ 31)" using assms(2) by simp
  have st: "long_div (- dl) ?d = - long_div dl ?d"
    using dlmin by (rule long_div_neg)
  have tt: "transit_time (- dl) s = Some (- dt)" "0 \<le> sint dt"
    using transit_time_neg [OF assms(2) h(4)] by simp_all
  have sd: "long_div (- dt) (long_abs (long_div dl ?d)) = - long_div dt (long_abs (long_div dl ?d))"
    using tt(2) by (intro long_div_neg) simp
  have "prepare_line sm (- dl) spd
          = Inr (0, [(sm, - long_div dl ?d, - long_div dt (long_abs (long_div dl ?d)))])"
    using h(1,2,3,5) by (simp add: prepare_line_reaches_division tt(1) st long_abs_neg sd)
  with h(6) show ?thesis by simp
qed


text \<open>
  C6. The step count of \<open>-dl\<close> is the negation of the step count of \<open>dl\<close>, but the step delay
  is not the same: \<^verbatim>\<open>prepare_line\<close> computes the transit time from the signed \<open>dl\<close>, so for a
  negative displacement \<open>dt\<close> is negative, \<open>dt / mod_steps\<close> is negative, and its conversion to
  \<^verbatim>\<open>unsigned long\<close> wraps. With \<open>distance_per_step = 1000\<close>, \<open>pulse_delay = 1000\<close>, \<open>spd = 1000\<close>:
  \<open>dl = 10000\<close> gives \<open>(10, 1000000)\<close>, \<open>dl = -10000\<close> gives \<open>(-10, 4293967296)\<close>.
  (\<^verbatim>\<open>prepare_line_2d\<close> computes \<open>dt\<close> from the path length, which is not negative.)
\<close>

theorem negative_dl_step_delay:
  "prepare_line (axis 1000 1000) 10000 1000 = Inr (0, [(axis 1000 1000, 10, 1000000)]) \<and>
   transit_time (- 10000) 1000 = Some (- 10000000) \<and>
   prepare_line (axis 1000 1000) (- 10000) 1000
     = Inr (0, [(axis 1000 1000, - 10, 4293967296)])"
  by code_simp

section \<open>Step delay and pulse delay\<close>

text \<open>
  The speed check bounds the exact transit time from below by \<open>steps * pulse_delay\<close>. The
  two roundings and the cut of the conversion to \<^verbatim>\<open>long\<close> can lose one microsecond of it, and no
  more: for a positive displacement of at least one step, a successful \<^verbatim>\<open>prepare_line\<close> emits a
  step delay of at least \<open>pulse_delay - 1\<close>.
\<close>

lemma uint_mult_le: "uint (a * b :: 32 word) \<le> uint a * uint b"
  by (simp add: uint_word_ariths zmod_le_nonneg_dividend)

lemma uint_pos:
  assumes "(w :: 32 word) \<noteq> 0"
  shows "0 < uint w"
proof -
  have "uint w \<noteq> 0" using assms by (simp add: uint_0_iff)
  moreover have "0 \<le> uint w" by (rule uint_ge_0)
  ultimately show ?thesis by linarith
qed

lemma uint_max_spd_le:
  assumes "pulse_delay sm \<noteq> 0"
  shows "uint (max_spd sm) * uint (pulse_delay sm) \<le> uint (distance_per_step sm) * 1000000"
proof -
  let ?D = "uint (distance_per_step sm)" and ?P = "uint (pulse_delay sm)"
  have P: "0 < ?P" using assms by (rule uint_pos)
  have a: "uint (distance_per_step sm * 1000) \<le> ?D * 1000"
    using uint_mult_le [of "distance_per_step sm" 1000] by simp
  have "uint (distance_per_step sm * 1000 div pulse_delay sm)
          = uint (distance_per_step sm * 1000) div ?P"
    by (rule uint_div)
  also have "\<dots> \<le> ?D * 1000 div ?P" using a P by (rule zdiv_mono1)
  finally have q: "uint (distance_per_step sm * 1000 div pulse_delay sm) \<le> ?D * 1000 div ?P" .
  have "uint (max_spd sm) \<le> uint (distance_per_step sm * 1000 div pulse_delay sm) * 1000"
    unfolding max_spd_def
    using uint_mult_le [of "distance_per_step sm * 1000 div pulse_delay sm" 1000] by simp
  also have "\<dots> \<le> (?D * 1000 div ?P) * 1000" using q by simp
  finally have "uint (max_spd sm) * ?P \<le> (?D * 1000 div ?P) * 1000 * ?P"
    using P by (simp add: mult_right_mono)
  also have "\<dots> = (?D * 1000 div ?P * ?P) * 1000" by simp
  also have "\<dots> \<le> (?D * 1000) * 1000"
  proof -
    have "?D * 1000 div ?P * ?P \<le> ?D * 1000"
      using P by (simp flip: minus_mod_eq_div_mult)
    then show ?thesis by (rule mult_right_mono) simp
  qed
  finally show ?thesis by simp
qed

lemma resolve_spd_le: "resolve_spd spd m = Some s \<Longrightarrow> s \<le> m"
  by (auto simp: resolve_spd_def split: if_splits)

lemma uint_eq_sint:
  assumes "0 \<le> sint (x :: 32 word)"
  shows "uint x = sint x"
proof -
  have "sint x < 2 ^ 32" using sint_lt [of x] by simp
  then have "take_bit 32 (sint x) = sint x"
    using assms by (simp add: take_bit_int_eq_self)
  then show ?thesis by (simp add: uint_sint)
qed

lemma transit_time_lower:
  assumes "0 < L" "sint dl = L" "0 < S" "uint s = S"
      and "transit_time dl s = Some dt"
      and "0 < N" "N * S \<le> L * 1000000"
  shows "N - 1 \<le> sint dt"
proof -
  define x :: rat where "x = of_int L / of_int S"
  define q where "q = fl x"
  define y where "y = fl (q * 1000000)"
  have Sr: "(0::rat) < of_int S" using assms(3) by simp
  have x0: "0 \<le> x" using assms(1,3) by (simp add: x_def)
  have q0: "0 \<le> q" unfolding q_def using x0 by (rule fl_nonneg)
  have y0: "0 \<le> y" unfolding y_def using q0 by (intro fl_nonneg) simp
  have s0: "s \<noteq> 0" using assms(3,4) by auto
  have lod: "long_of_double y = Some dt"
    using assms(5) s0
    by (simp add: transit_time_def y_def q_def x_def double_of_long_def double_of_ulong_def
        assms(2,4))
  have dt: "sint dt = \<lfloor>y\<rfloor>" by (rule long_of_double_nonneg(1) [OF y0 lod])
  have r: "\<lfloor>y\<rfloor> < 2 ^ 31"
    using lod by (auto simp: long_of_double_def Let_def split: if_splits)
  have xN: "of_int N / 1000000 \<le> x"
  proof -
    have "(of_int (N * S) :: rat) \<le> of_int (L * 1000000)"
      using assms(7) by (simp only: of_int_le_iff)
    then have "(of_int N :: rat) * of_int S \<le> of_int L * 1000000" by simp
    then show ?thesis using Sr by (simp add: x_def field_simps)
  qed
  have "x - q \<le> \<bar>fl x - x\<bar>" by (simp add: q_def)
  also have "\<dots> \<le> \<bar>x\<bar> / 2 ^ 53" by (rule fl_rel_err)
  finally have qx: "x * (1 - 1 / 2 ^ 53) \<le> q" using x0 by (simp add: algebra_simps)
  have "of_int N / 1000000 * (1 - 1 / 2 ^ 53) \<le> x * (1 - 1 / 2 ^ 53)"
    using xN by (intro mult_right_mono) simp_all
  with qx have "of_int N / 1000000 * (1 - 1 / 2 ^ 53) \<le> q" by simp
  then have "of_int N / 1000000 * (1 - 1 / 2 ^ 53) * 1000000 \<le> q * 1000000"
    by (intro mult_right_mono) simp_all
  then have qN: "of_int N * (1 - 1 / 2 ^ 53) \<le> q * 1000000" by simp
  show ?thesis
  proof (cases "N = 1")
    case True
    with y0 dt show ?thesis by simp
  next
    case False
    define k where "k = min (N - 1) (2 ^ 52)"
    have k: "0 < k" "k \<le> 2 ^ 53" "k \<le> N - 1" "k \<le> 2 ^ 52"
      using False assms(6) by (simp_all add: k_def)
    have "of_int k \<le> of_int N * (1 - 1 / 2 ^ 53 :: rat)"
    proof (cases "N \<le> 2 ^ 53")
      case True
      then have "(of_int N :: rat) \<le> of_int (2 ^ 53)" by (simp only: of_int_le_iff)
      then have "(of_int N :: rat) / 2 ^ 53 \<le> 1" by simp
      moreover have "(of_int k :: rat) \<le> of_int (N - 1)" using k(3) by (simp only: of_int_le_iff)
      ultimately show ?thesis by (simp add: algebra_simps)
    next
      case False
      then have "2 ^ 53 \<le> N" by simp
      then have "(of_int (2 ^ 53) :: rat) \<le> of_int N" by (simp only: of_int_le_iff)
      then have "(2 ^ 53 :: rat) * (1 - 1 / 2 ^ 53) \<le> of_int N * (1 - 1 / 2 ^ 53)"
        by (intro mult_right_mono) simp_all
      moreover have "(of_int k :: rat) \<le> of_int (2 ^ 52)" using k(4) by (simp only: of_int_le_iff)
      ultimately show ?thesis by simp
    qed
    with qN have "of_int k \<le> q * 1000000" by simp
    then have "of_int k \<le> y" unfolding y_def using k(1,2) by (rule fl_ge_of_int)
    then have ky: "k \<le> \<lfloor>y\<rfloor>" by (simp add: le_floor_iff)
    have "(2::int) ^ 31 < 2 ^ 52" by simp
    with r ky have "k < 2 ^ 52" by linarith
    then have "k = N - 1" by (simp add: k_def min_def split: if_splits)
    with ky dt show ?thesis by simp
  qed
qed


lemma sdiv_nonneg:
  fixes a b :: int
  assumes "0 \<le> a" "0 < b"
  shows "a sdiv b = a div b"
  using assms by (cases "a = 0") (simp_all add: signed_divide_int_def sgn_if)

lemma step_delay_lower_bound:
  assumes "0 < sint (distance_per_step sm)" "sint (distance_per_step sm) \<le> sint dl"
      and "prepare_line sm dl spd = Inr (0, [(sm, steps, step_delay)])"
  shows "uint (pulse_delay sm) - 1 \<le> uint step_delay"
proof -
  let ?d = "distance_per_step sm"
  define D L P where "D = sint ?d" and "L = sint dl" and "P = uint (pulse_delay sm)"
  from assms(3) obtain s dt where h: "?d \<noteq> 0" "pulse_delay sm \<noteq> 0"
    "resolve_spd spd (max_spd sm) = Some s" "transit_time dl s = Some dt"
    "long_abs (long_div dl ?d) \<noteq> 0"
    "[(sm, steps, step_delay)] = [(sm, long_div dl ?d, long_div dt (long_abs (long_div dl ?d)))]"
    by (rule prepare_line_success)
  have D: "0 < D" "D \<le> L" "uint ?d = D" using assms(1,2) by (simp_all add: D_def L_def uint_eq_sint)
  have L: "0 < L" using D by simp
  have P: "0 < P" unfolding P_def using h(2) by (rule uint_pos)
  define K where "K = L div D"
  have K: "0 < K" using D by (simp add: K_def pos_imp_zdiv_pos_iff)
  have KD: "K * D \<le> L" using D(1) by (simp add: K_def flip: minus_mod_eq_div_mult)
  have sK: "sint (long_div dl ?d) = K"
    using assms(1) D L by (simp add: sint_long_div K_def D_def L_def signed_divide_int_def)
  then have ms: "long_abs (long_div dl ?d) = long_div dl ?d" using K by (simp add: long_abs_def)
  define S where "S = uint s"
  have "s \<noteq> 0" using h(4) by (auto simp: transit_time_def)
  then have S: "0 < S" unfolding S_def by (rule uint_pos)
  have "s \<le> max_spd sm" using h(3) by (rule resolve_spd_le)
  then have SM: "S \<le> uint (max_spd sm)" by (simp add: S_def word_le_def)
  have "S * P \<le> uint (max_spd sm) * P" using SM P by (simp add: mult_right_mono)
  also have "\<dots> \<le> D * 1000000" using uint_max_spd_le [OF h(2)] by (simp add: P_def D(3))
  finally have SP: "S * P \<le> D * 1000000" .
  have "K * P * S = K * (S * P)" by simp
  also have "\<dots> \<le> K * (D * 1000000)" using SP K by (simp add: mult_left_mono)
  also have "\<dots> = (K * D) * 1000000" by simp
  also have "\<dots> \<le> L * 1000000" using KD by simp
  finally have NS: "K * P * S \<le> L * 1000000" .
  have KP: "0 < K * P" using K P by simp
  have lo: "K * P - 1 \<le> sint dt"
    using L _ S _ h(4) KP NS by (rule transit_time_lower) (simp_all add: L_def S_def)
  then have dt0: "0 \<le> sint dt" using KP by linarith
  have "sint (long_div dt (long_div dl ?d)) = sint dt sdiv K"
    using K by (simp add: sint_long_div sK)
  also have "\<dots> = sint dt div K" using dt0 K by (rule sdiv_nonneg)
  finally have sd: "sint (long_div dt (long_div dl ?d)) = sint dt div K" .
  have "K * (P - 1) \<le> sint dt" using lo K by (simp add: algebra_simps)
  then have "K * (P - 1) div K \<le> sint dt div K" using K by (rule zdiv_mono1)
  then have "P - 1 \<le> sint dt div K" using K by simp
  moreover have "0 \<le> sint dt div K" using dt0 K by (simp add: pos_imp_zdiv_nonneg_iff)
  ultimately have "P - 1 \<le> uint (long_div dt (long_div dl ?d))"
    by (simp add: uint_eq_sint sd)
  with h(6) show ?thesis by (simp add: ms P_def)
qed

text \<open>
  C10. At the maximum speed of an axis with \<open>distance_per_step = 1000\<close> and
  \<open>pulse_delay = 1000\<close>, the displacement \<open>dl = 1009000\<close> (1009 steps) gets the transit time
  \<open>1008999\<close>: the quotient \<open>1009000 / 1000000\<close> is rounded down to the nearest \<^verbatim>\<open>double\<close>, the
  product with \<open>1000000\<close> is the \<^verbatim>\<open>double\<close> just below \<open>1009000\<close>, and the conversion to \<^verbatim>\<open>long\<close>
  cuts it to \<open>1008999\<close>. The step delay \<open>1008999 / 1009 = 999\<close> is below the pulse delay of the
  axis. \<^verbatim>\<open>prepare_line_2d\<close> does the same for the first axis at \<open>dl1 = 1009000\<close>, \<open>dl2 = 1000\<close>.
\<close>

theorem step_delay_below_pulse_delay:
  "max_spd (axis 1000 1000) = 1000000 \<and>
   transit_time 1009000 1000000 = Some 1008999 \<and>
   prepare_line (axis 1000 1000) 1009000 0 = Inr (0, [(axis 1000 1000, 1009, 999)]) \<and>
   prepare_line_2d (axis 1000 1000) (axis 1000 1000) 1009000 1000 0
     = Inr (0, [(axis 1000 1000, 1009, 999), (axis 1000 1000, 1, 1008999)]) \<and>
   (999 :: 32 word) < pulse_delay (axis 1000 1000)"
  by code_simp

end
